theory Spec2Isabelle
  imports Complex_Main "HOL-Library.AList"
begin

section \<open>Repository Intelligence Engine (analyzer.py)\<close>

text \<open>
  A shallow embedding of the analysis core of \<^verbatim>\<open>.repometa/analyzer.py\<close>. Python
  \<^verbatim>\<open>str\<close> is \<open>string\<close>, \<^verbatim>\<open>int\<close> is \<open>int\<close>, a \<^verbatim>\<open>dict\<close> (insertion ordered,
  unique keys) is an association list, a \<^verbatim>\<open>set\<close> is a \<open>set\<close>, and an exception is a
  value on the left of a sum. Python's float arithmetic is written with exact
  rationals. A leading underscore of a Python name is dropped.
\<close>

subsection \<open>Severity classification\<close>

text \<open>
  \<^verbatim>\<open>_impact_severity(impact_count, importance)\<close>: an if/elif chain, first match wins.
\<close>

definition impact_severity :: "int \<Rightarrow> string \<Rightarrow> string" where
  "impact_severity impact_count importance =
     (if importance = ''critical'' \<and> impact_count \<ge> 5 then ''CATASTROPHIC''
      else if importance = ''critical'' \<or> impact_count \<ge> 10 then ''SEVERE''
      else if impact_count \<ge> 5 then ''MODERATE''
      else ''LOW'')"

text \<open>The order of the four labels: LOW, MODERATE, SEVERE, CATASTROPHIC.\<close>

definition severity_rank :: "string \<Rightarrow> nat" where
  "severity_rank s =
     (if s = ''LOW'' then 0
      else if s = ''MODERATE'' then 1
      else if s = ''SEVERE'' then 2
      else if s = ''CATASTROPHIC'' then 3
      else 4)"

subsection \<open>Complexity score\<close>

text \<open>
  \<^verbatim>\<open>_calculate_complexity_score(lines, functions, classes, imports)\<close>. The four
  counts are Python ints; \<^verbatim>\<open>/\<close> is true division.
\<close>

definition line_score :: "int \<Rightarrow> rat" where
  "line_score lines = min ((of_int lines / 1000) * 50) 50"

definition function_score :: "int \<Rightarrow> rat" where
  "function_score functions = min ((of_int functions / 30) * 20) 20"

definition class_score :: "int \<Rightarrow> rat" where
  "class_score classes = min ((of_int classes / 50) * 20) 20"

definition import_score :: "int \<Rightarrow> rat" where
  "import_score imports = min ((of_int imports / 20) * 10) 10"

definition calculate_complexity_score :: "int \<Rightarrow> int \<Rightarrow> int \<Rightarrow> int \<Rightarrow> rat" where
  "calculate_complexity_score lines functions classes imports =
     (let total = line_score lines + function_score functions
                  + class_score classes + import_score imports
      in min total 100)"

subsection \<open>Dependency nodes\<close>

text \<open>The dataclass \<^verbatim>\<open>DependencyNode\<close> and its two methods.\<close>

record DependencyNode =
  path :: string
  importance :: string
  dependencies :: "string list"
  dependents :: "string list"
  external_deps :: "string list"

definition blast_radius :: "DependencyNode \<Rightarrow> int" where
  "blast_radius node = int (length (dependents node))"

definition importance_scores :: "(string \<times> int) list" where
  "importance_scores = [(''critical'', 100), (''high'', 75), (''medium'', 50), (''low'', 25)]"

definition criticality_score :: "DependencyNode \<Rightarrow> int" where
  "criticality_score node =
     (let base_score = (case map_of importance_scores (importance node) of
                          None \<Rightarrow> 50 | Some v \<Rightarrow> v);
          dependency_factor = min (blast_radius node * 5) 50
      in min (base_score + dependency_factor) 100)"

subsection \<open>Building the dependency graph\<close>

text \<open>
  One entry of the manifest's \<^verbatim>\<open>structure\<close> list, as far as the graph builder reads
  it: \<^verbatim>\<open>item['path']\<close> is required, the other three keys are read with
  \<^verbatim>\<open>item.get(key, default)\<close> and so may be absent.
\<close>

record manifest_item =
  item_path :: string
  item_importance :: "string option"
  item_connects_to :: "string list option"
  item_dependencies :: "string list option"

type_synonym graph = "(string \<times> DependencyNode) list"

definition make_node :: "manifest_item \<Rightarrow> DependencyNode" where
  "make_node item =
     \<lparr>path = item_path item,
      importance = (case item_importance item of None \<Rightarrow> ''medium'' | Some s \<Rightarrow> s),
      dependencies = (case item_connects_to item of None \<Rightarrow> [] | Some ds \<Rightarrow> ds),
      dependents = [],
      external_deps = (case item_dependencies item of None \<Rightarrow> [] | Some ds \<Rightarrow> ds)\<rparr>"

text \<open>
  The first loop of \<^verbatim>\<open>_build_dependency_graph\<close>: \<^verbatim>\<open>graph[path] = node\<close> for every
  item in order. Assigning to a key that is present replaces its value and keeps its
  place in the dict, which is what \<open>AList.update\<close> does.
\<close>

definition insert_nodes :: "manifest_item list \<Rightarrow> graph \<Rightarrow> graph" where
  "insert_nodes items g = fold (\<lambda>item. AList.update (item_path item) (make_node item)) items g"

text \<open>
  The body of the second loop: \<^verbatim>\<open>if dep in graph: graph[dep].dependents.append(path)\<close>.
\<close>

definition add_dependent :: "string \<Rightarrow> string \<Rightarrow> graph \<Rightarrow> graph" where
  "add_dependent p dep g =
     (if map_of g dep \<noteq> None
      then AList.map_entry dep (\<lambda>node. node\<lparr>dependents := dependents node @ [p]\<rparr>) g
      else g)"

text \<open>
  The second loop runs over \<^verbatim>\<open>graph.items()\<close> and over each node's
  \<^verbatim>\<open>dependencies\<close>; it changes \<^verbatim>\<open>dependents\<close> lists only, so the keys and the
  \<^verbatim>\<open>dependencies\<close> it iterates over are those of the graph before the loop.
\<close>

definition reverse_dependencies :: "graph \<Rightarrow> graph" where
  "reverse_dependencies g0 =
     fold (\<lambda>(p, node) g. fold (add_dependent p) (dependencies node) g) g0 g0"

definition build_dependency_graph :: "manifest_item list \<Rightarrow> graph" where
  "build_dependency_graph items = reverse_dependencies (insert_nodes items [])"

subsection \<open>Failure impact\<close>

text \<open>
  The loop of \<^verbatim>\<open>_calculate_failure_impact\<close>: \<^verbatim>\<open>queue.pop(0)\<close>, skip a visited
  node, otherwise mark it and append those of its dependents that are not visited.
\<close>

text \<open>
  The names that can ever enter the queue from the graph; the traversal's termination
  is measured against them.
\<close>

definition graph_names :: "graph \<Rightarrow> string set" where
  "graph_names g = (\<Union>(p, node) \<in> set g. set (dependents node))"

function bfs :: "graph \<Rightarrow> string set \<Rightarrow> string list \<Rightarrow> string set" where
  "bfs g visited [] = visited"
| "bfs g visited (current # queue) =
     (if current \<in> visited then bfs g visited queue
      else (case map_of g current of
              None \<Rightarrow> bfs g (insert current visited) queue
            | Some node \<Rightarrow>
                bfs g (insert current visited)
                  (queue @ filter (\<lambda>dependent. dependent \<notin> insert current visited)
                             (dependents node))))"
  by pat_completeness auto
termination
proof (relation "inv_image (less_than <*lex*> less_than)
    (\<lambda>(g, visited, queue). (card ((graph_names g \<union> set queue) - visited), length queue))")
  show "wf (inv_image (less_than <*lex*> less_than)
    (\<lambda>(g :: graph, visited :: string set, queue :: string list).
       (card ((graph_names g \<union> set queue) - visited), length queue)))"
    by (intro wf_inv_image wf_lex_prod wf_less_than)
next
  fix g :: graph and visited :: "string set" and current queue
  assume "current \<in> visited"
  then have "(graph_names g \<union> set (current # queue)) - visited
             = (graph_names g \<union> set queue) - visited" by auto
  then show "((g, visited, queue), (g, visited, current # queue))
    \<in> inv_image (less_than <*lex*> less_than)
       (\<lambda>(g, visited, queue). (card ((graph_names g \<union> set queue) - visited), length queue))"
    by simp
next
  fix g :: graph and visited :: "string set" and current queue
  assume c: "current \<notin> visited"
  have fin: "finite ((graph_names g \<union> set (current # queue)) - visited)"
    by (auto simp: graph_names_def)
  have "(graph_names g \<union> set queue) - insert current visited
        \<subset> (graph_names g \<union> set (current # queue)) - visited"
    using c by auto
  then have "card ((graph_names g \<union> set queue) - insert current visited)
        < card ((graph_names g \<union> set (current # queue)) - visited)"
    using fin by (rule psubset_card_mono [rotated])
  then show "((g, insert current visited, queue), (g, visited, current # queue))
    \<in> inv_image (less_than <*lex*> less_than)
       (\<lambda>(g, visited, queue). (card ((graph_names g \<union> set queue) - visited), length queue))"
    by simp
next
  fix g :: graph and visited :: "string set" and current queue node
  assume c: "current \<notin> visited" and m: "map_of g current = Some node"
  let ?q = "queue @ filter (\<lambda>dependent. dependent \<notin> insert current visited) (dependents node)"
  have "(current, node) \<in> set g" using m by (rule map_of_SomeD)
  then have sub: "set (dependents node) \<subseteq> graph_names g"
    by (auto simp: graph_names_def)
  have fin: "finite ((graph_names g \<union> set (current # queue)) - visited)"
    by (auto simp: graph_names_def)
  have "(graph_names g \<union> set ?q) - insert current visited
        \<subset> (graph_names g \<union> set (current # queue)) - visited"
    using c sub by auto
  then have "card ((graph_names g \<union> set ?q) - insert current visited)
        < card ((graph_names g \<union> set (current # queue)) - visited)"
    using fin by (rule psubset_card_mono [rotated])
  then show "((g, insert current visited, ?q), (g, visited, current # queue))
    \<in> inv_image (less_than <*lex*> less_than)
       (\<lambda>(g, visited, queue). (card ((graph_names g \<union> set queue) - visited), length queue))"
    by simp
qed

record failure_impact =
  direct_impact :: int
  total_impact :: int
  severity :: string

definition calculate_failure_impact :: "DependencyNode \<Rightarrow> graph \<Rightarrow> failure_impact" where
  "calculate_failure_impact node g =
     (let visited = bfs g {} [path node];
          total_impacted = int (card visited) - 1
      in \<lparr>direct_impact = int (length (dependents node)),
          total_impact = total_impacted,
          severity = impact_severity total_impacted (importance node)\<rparr>)"

subsection \<open>Critical paths\<close>

text \<open>
  \<^verbatim>\<open>_trace_dependency_chain(start, graph, visited)\<close>: the recursive search along
  \<^verbatim>\<open>dependencies\<close>. Each recursive call gets its own copy of the visited set with
  \<open>start\<close> added. The top-level call passes no set, which stands for the empty one.
\<close>

function trace_dependency_chain :: "string \<Rightarrow> graph \<Rightarrow> string set \<Rightarrow> string list" where
  "trace_dependency_chain start g visited =
     (if start \<in> visited \<or> map_of g start = None then []
      else (case map_of g start of
              None \<Rightarrow> []
            | Some node \<Rightarrow>
                if dependencies node \<noteq> []
                then start # fold (\<lambda>dep longest_subchain.
                               let subchain = trace_dependency_chain dep g (insert start visited)
                               in if length subchain > length longest_subchain
                                  then subchain else longest_subchain)
                             (dependencies node) []
                else [start]))"
  by pat_completeness auto
termination
proof (relation "measure (\<lambda>(start, g, visited). card (fst ` set g - visited))")
  show "wf (measure (\<lambda>(start :: string, g :: graph, visited :: string set).
              card (fst ` set g - visited)))"
    by simp
next
  fix start :: string and g :: graph and visited :: "string set" and node dep
    and longest :: "string list"
  assume a: "\<not> (start \<in> visited \<or> map_of g start = None)"
  then have "start \<in> fst ` set g" by (auto simp: map_of_eq_None_iff)
  then have "fst ` set g - insert start visited \<subset> fst ` set g - visited"
    using a by auto
  moreover have "finite (fst ` set g - visited)" by simp
  ultimately have "card (fst ` set g - insert start visited) < card (fst ` set g - visited)"
    by (rule psubset_card_mono [rotated])
  then show "((dep, g, insert start visited), (start, g, visited))
      \<in> measure (\<lambda>(start, g, visited). card (fst ` set g - visited))"
    by simp
qed

text \<open>
  \<^verbatim>\<open>_find_critical_paths\<close>: every node whose \<^verbatim>\<open>dependencies\<close> list is empty is
  traced; chains of length 3 or more are kept, sorted by length (largest first, equal
  lengths in their order of discovery) and cut to five. The risk is High when some
  node of the chain that is in the graph is critical. \<open>candidate_paths\<close> is the list
  \<^verbatim>\<open>paths\<close> before it is sorted.
\<close>

record critical_path =
  chain :: "string list"
  chain_length :: int
  risk :: string

definition chain_risk :: "graph \<Rightarrow> string list \<Rightarrow> string" where
  "chain_risk g c =
     (if list_ex (\<lambda>p. case map_of g p of
                           None \<Rightarrow> False
                         | Some node \<Rightarrow> importance node = ''critical'') c
      then ''High'' else ''Medium'')"

definition candidate_paths :: "graph \<Rightarrow> critical_path list" where
  "candidate_paths g =
     concat (map (\<lambda>(p, node).
        if dependencies node = []
        then (let c = trace_dependency_chain p g {}
              in if length c \<ge> 3
                 then [\<lparr>chain = c, chain_length = int (length c), risk = chain_risk g c\<rparr>]
                 else [])
        else []) g)"

definition find_critical_paths :: "graph \<Rightarrow> critical_path list" where
  "find_critical_paths g = take 5 (sort_key (\<lambda>cp. - chain_length cp) (candidate_paths g))"

subsection \<open>The impact report\<close>

text \<open>
  \<^verbatim>\<open>_suggest_mitigation\<close>: the strategies that apply, joined by \<^verbatim>\<open>" | "\<close>.
\<close>

fun join_strings :: "string \<Rightarrow> string list \<Rightarrow> string" where
  "join_strings sep [] = []"
| "join_strings sep [s] = s"
| "join_strings sep (s # t # ts) = s @ sep @ join_strings sep (t # ts)"

definition suggest_mitigation :: "DependencyNode \<Rightarrow> string" where
  "suggest_mitigation node =
     (let strategies =
            (if blast_radius node \<ge> 5 then [''Implement circuit breaker pattern''] else [])
            @ (if ''BigQuery'' \<in> set (external_deps node) then [''Add caching layer''] else [])
            @ (if importance node = ''critical'' then [''Set up redundancy/failover''] else [])
      in if strategies \<noteq> [] then join_strings '' | '' strategies else ''Monitor closely'')"

text \<open>
  The dicts of \<^verbatim>\<open>analyze_impact\<close> as records. The reason of a single point of failure,
  \<^verbatim>\<open>f"Critical component with {n} dependents"\<close>, is kept as the number it mentions.
  The criticality score is an int, which \<^verbatim>\<open>round(..., 1)\<close> returns unchanged.
\<close>

record component_impact =
  comp_path :: string
  comp_importance :: string
  comp_criticality_score :: int
  comp_blast_radius :: int
  direct_dependents :: "string list"
  external_dependencies :: "string list"
  comp_failure_impact :: failure_impact

record single_point_of_failure =
  spof_component :: string
  spof_dependents :: int
  spof_mitigation :: string

record impact_analysis =
  critical_paths :: "critical_path list"
  single_points_of_failure :: "single_point_of_failure list"
  components :: "component_impact list"

text \<open>
  \<^verbatim>\<open>analyze_impact\<close> on the manifest's structure list: the nodes are visited by
  criticality score, largest first (\<^verbatim>\<open>sorted\<close> is stable, also with
  \<^verbatim>\<open>reverse=True\<close>).
\<close>

definition analyze_impact :: "manifest_item list \<Rightarrow> impact_analysis" where
  "analyze_impact items =
     (let g = build_dependency_graph items;
          ordered = sort_key (\<lambda>(p, node). - criticality_score node) g
      in \<lparr>critical_paths = find_critical_paths g,
          single_points_of_failure =
            map (\<lambda>(p, node). \<lparr>spof_component = p,
                                spof_dependents = blast_radius node,
                                spof_mitigation = suggest_mitigation node\<rparr>)
                (filter (\<lambda>(p, node). blast_radius node \<ge> 5 \<and> importance node = ''critical'')
                        ordered),
          components =
            map (\<lambda>(p, node). \<lparr>comp_path = p,
                                comp_importance = importance node,
                                comp_criticality_score = criticality_score node,
                                comp_blast_radius = blast_radius node,
                                direct_dependents = dependents node,
                                external_dependencies = external_deps node,
                                comp_failure_impact = calculate_failure_impact node g\<rparr>)
                ordered\<rparr>)"

subsection \<open>Loading the manifest\<close>

text \<open>
  What the engine reads of a parsed manifest: \<^verbatim>\<open>manifest.get('structure', [])\<close>. The
  entries of \<^verbatim>\<open>categories\<close> are never read by the engine; they are kept by name.
\<close>

record manifest =
  manifest_structure :: "manifest_item list option"
  manifest_categories :: "string list option"

text \<open>
  What \<^verbatim>\<open>open\<close> and \<^verbatim>\<open>yaml.safe_load\<close> do with the manifest path: \<^verbatim>\<open>open\<close> raises
  \<^verbatim>\<open>FileNotFoundError\<close>, or the parser raises \<^verbatim>\<open>yaml.YAMLError\<close>, or the parser
  returns a document that is not a mapping (an empty file gives \<^verbatim>\<open>None\<close>), or it
  returns a mapping.
\<close>

datatype manifest_input = FileNotFound | Unparseable | NotAMapping | Parsed manifest

datatype error = YAMLError | AttributeError

text \<open>
  The two lines \<^verbatim>\<open>_load_manifest\<close> prints when the file is missing
  (\<^verbatim>\<open>Warning: Manifest not found at <path>\<close> and \<^verbatim>\<open>Some features will be limited.\<close>),
  and the line \<^verbatim>\<open>main\<close> prints when the constructor raises.
\<close>

datatype notice = ManifestNotFound string | FeaturesLimited | FailedToInitialize error

text \<open>
  \<^verbatim>\<open>_load_manifest\<close>: only \<^verbatim>\<open>FileNotFoundError\<close> is caught. The result is the loaded
  value (a manifest, or \<open>None\<close> for a document that is not a mapping) and what was
  printed.
\<close>

definition default_manifest :: manifest where
  "default_manifest = \<lparr>manifest_structure = Some [], manifest_categories = Some []\<rparr>"

fun load_manifest :: "string \<Rightarrow> manifest_input \<Rightarrow> error + (manifest option \<times> notice list)" where
  "load_manifest manifest_path FileNotFound =
     Inr (Some default_manifest, [ManifestNotFound manifest_path, FeaturesLimited])"
| "load_manifest manifest_path Unparseable = Inl YAMLError"
| "load_manifest manifest_path NotAMapping = Inr (None, [])"
| "load_manifest manifest_path (Parsed m) = Inr (Some m, [])"

text \<open>
  \<^verbatim>\<open>self.manifest.get('structure', [])\<close>, an \<^verbatim>\<open>AttributeError\<close> when the loaded value
  has no \<^verbatim>\<open>get\<close>.
\<close>

fun get_structure :: "manifest option \<Rightarrow> error + manifest_item list" where
  "get_structure None = Inl AttributeError"
| "get_structure (Some m) = Inr (case manifest_structure m of None \<Rightarrow> [] | Some items \<Rightarrow> items)"

text \<open>\<^verbatim>\<open>_build_file_index\<close>: \<^verbatim>\<open>index[item['path']] = item\<close> for every item.\<close>

definition build_file_index :: "manifest option \<Rightarrow> error + (string \<times> manifest_item) list" where
  "build_file_index m =
     (case get_structure m of
        Inl e \<Rightarrow> Inl e
      | Inr items \<Rightarrow> Inr (fold (\<lambda>item. AList.update (item_path item) item) items []))"

record engine =
  engine_manifest :: "manifest option"
  files :: "(string \<times> manifest_item) list"

text \<open>\<^verbatim>\<open>IntelligenceEngine.__init__\<close>: an exception of either step leaves the constructor.\<close>

definition engine_init :: "string \<Rightarrow> manifest_input \<Rightarrow> error + (engine \<times> notice list)" where
  "engine_init manifest_path input =
     (case load_manifest manifest_path input of
        Inl e \<Rightarrow> Inl e
      | Inr (m, printed) \<Rightarrow>
          (case build_file_index m of
             Inl e \<Rightarrow> Inl e
           | Inr index \<Rightarrow> Inr (\<lparr>engine_manifest = m, files = index\<rparr>, printed)))"

text \<open>
  The graph of an engine: \<^verbatim>\<open>_build_dependency_graph\<close> reads
  \<^verbatim>\<open>self.manifest.get('structure', [])\<close>.
\<close>

definition engine_graph :: "engine \<Rightarrow> error + graph" where
  "engine_graph e =
     (case get_structure (engine_manifest e) of
        Inl err \<Rightarrow> Inl err
      | Inr items \<Rightarrow> Inr (build_dependency_graph items))"

text \<open>
  The start of \<^verbatim>\<open>main\<close>: the constructor runs inside \<^verbatim>\<open>try ... except Exception\<close>,
  whose handler prints a message and calls \<^verbatim>\<open>sys.exit(1)\<close>.
\<close>

datatype startup = Exited int "notice list" | Started engine "notice list"

definition main_startup :: "string \<Rightarrow> manifest_input \<Rightarrow> startup" where
  "main_startup manifest_path input =
     (case engine_init manifest_path input of
        Inl e \<Rightarrow> Exited 1 [FailedToInitialize e]
      | Inr (eng, printed) \<Rightarrow> Started eng printed)"

subsection \<open>Code blocks and their similarity\<close>

text \<open>
  Characters are bytes; the character classes are those of Python's \<^verbatim>\<open>re\<close> on ASCII
  text: \<^verbatim>\<open>\w\<close> is a letter, a digit or the underscore, \<^verbatim>\<open>\s\<close> is one of the
  characters 9 to 13 and 28 to 32, and \<^verbatim>\<open>lower()\<close> changes the letters A to Z.
\<close>

definition newline :: char where
  "newline = CHR 0x0A"

definition is_word_char :: "char \<Rightarrow> bool" where
  "is_word_char c =
     (let n = (of_char c :: nat)
      in (48 \<le> n \<and> n \<le> 57) \<or> (65 \<le> n \<and> n \<le> 90) \<or> n = 95 \<or> (97 \<le> n \<and> n \<le> 122))"

definition is_space :: "char \<Rightarrow> bool" where
  "is_space c =
     (let n = (of_char c :: nat)
      in (9 \<le> n \<and> n \<le> 13) \<or> (28 \<le> n \<and> n \<le> 32))"

definition lower_char :: "char \<Rightarrow> char" where
  "lower_char c =
     (let n = (of_char c :: nat)
      in if 65 \<le> n \<and> n \<le> 90 then char_of (n + 32) else c)"

text \<open>
  \<^verbatim>\<open>text.split(sep)\<close> for a separator of one character: one piece more than there
  are separators.
\<close>

fun split_on :: "char \<Rightarrow> string \<Rightarrow> string list" where
  "split_on sep [] = [[]]"
| "split_on sep (x # xs) =
     (if x = sep then [] # split_on sep xs
      else (case split_on sep xs of
              [] \<Rightarrow> [[x]]
            | piece # pieces \<Rightarrow> (x # piece) # pieces))"

text \<open>The index of the first occurrence of \<open>pat\<close> in a string.\<close>

fun find_sub :: "string \<Rightarrow> string \<Rightarrow> nat option" where
  "find_sub pat [] = (if pat = [] then Some 0 else None)"
| "find_sub pat (x # xs) =
     (if take (length pat) (x # xs) = pat then Some 0
      else map_option Suc (find_sub pat xs))"

text \<open>
  \<^verbatim>\<open>re.sub(r'#.*$', '', text, flags=re.MULTILINE)\<close>: from a \<^verbatim>\<open>#\<close> to the end of its
  line, the newline staying. The flag says whether the scan is inside such a match.
\<close>

fun strip_hash_comments :: "bool \<Rightarrow> string \<Rightarrow> string" where
  "strip_hash_comments in_comment [] = []"
| "strip_hash_comments in_comment (x # xs) =
     (if x = newline then x # strip_hash_comments False xs
      else if in_comment \<or> x = CHR ''#'' then strip_hash_comments True xs
      else x # strip_hash_comments False xs)"

text \<open>
  \<^verbatim>\<open>re.sub(r'<!--.*?-->', '', text, flags=re.DOTALL)\<close>: from \<^verbatim>\<open><!--\<close> through the next
  \<^verbatim>\<open>-->\<close> after it. \<open>skip\<close> counts the characters of the current match still to be
  dropped.
\<close>

fun strip_html_comments :: "nat \<Rightarrow> string \<Rightarrow> string" where
  "strip_html_comments skip [] = []"
| "strip_html_comments skip (x # xs) =
     (if skip > 0 then strip_html_comments (skip - 1) xs
      else if take 4 (x # xs) = ''<!--''
      then (case find_sub ''-->'' (drop 4 (x # xs)) of
              None \<Rightarrow> x # strip_html_comments 0 xs
            | Some k \<Rightarrow> strip_html_comments (4 + k + 3 - 1) xs)
      else x # strip_html_comments 0 xs)"

text \<open>\<^verbatim>\<open>re.sub(r'\s+', ' ', text)\<close>: every run of whitespace becomes one space.\<close>

fun collapse_whitespace :: "bool \<Rightarrow> string \<Rightarrow> string" where
  "collapse_whitespace in_run [] = []"
| "collapse_whitespace in_run (x # xs) =
     (if is_space x
      then (if in_run then collapse_whitespace True xs
            else CHR '' '' # collapse_whitespace True xs)
      else x # collapse_whitespace False xs)"

text \<open>\<^verbatim>\<open>re.findall(r'\b\w+\b', text)\<close>: the maximal runs of word characters.\<close>

fun find_words :: "string \<Rightarrow> string \<Rightarrow> string list" where
  "find_words cur [] = (if cur = [] then [] else [cur])"
| "find_words cur (x # xs) =
     (if is_word_char x then find_words (cur @ [x]) xs
      else (if cur = [] then [] else [cur]) @ find_words [] xs)"

text \<open>\<^verbatim>\<open>CodeBlock._tokenize\<close>.\<close>

definition tokenize :: "string \<Rightarrow> string list" where
  "tokenize text =
     (let text1 = strip_hash_comments False text;
          text2 = strip_html_comments 0 text1;
          text3 = collapse_whitespace False text2
      in find_words [] (map lower_char text3))"

record CodeBlock =
  file_path :: string
  content :: string
  start_line :: int
  end_line :: int
  hash_value :: string

text \<open>\<^verbatim>\<open>CodeBlock.similarity_to\<close>, a percentage.\<close>

definition similarity_to :: "CodeBlock \<Rightarrow> CodeBlock \<Rightarrow> rat" where
  "similarity_to self other =
     (if hash_value self = hash_value other then 100
      else (let self_tokens = set (tokenize (content self));
                other_tokens = set (tokenize (content other))
            in if self_tokens = {} \<and> other_tokens = {} then 100
               else if self_tokens = {} \<or> other_tokens = {} then 0
               else (of_nat (card (self_tokens \<inter> other_tokens))
                      / of_nat (card (self_tokens \<union> other_tokens))) * 100))"

subsection \<open>Extracting code blocks\<close>

text \<open>
  One attempt to match the pattern \<^verbatim>\<open>```(\w*)\n(.*?)```\<close> (with \<^verbatim>\<open>re.DOTALL\<close>) at the
  start of \<open>s\<close>: three backticks, the longest run of word characters, a newline, and
  the shortest text up to the next three backticks. The result is group 2 and the
  length of the whole match.
\<close>

definition match_fence :: "string \<Rightarrow> (string \<times> nat) option" where
  "match_fence s =
     (if take 3 s = ''```''
      then (let after = drop 3 s;
                lang = takeWhile is_word_char after
            in case dropWhile is_word_char after of
                 [] \<Rightarrow> None
               | c # body \<Rightarrow>
                   if c = newline
                   then (case find_sub ''```'' body of
                           None \<Rightarrow> None
                         | Some k \<Rightarrow> Some (take k body, 3 + length lang + 1 + k + 3))
                   else None)
      else None)"

text \<open>
  \<^verbatim>\<open>re.finditer\<close>: the matches from left to right, the search going on behind each
  match. \<open>pos\<close> is the index of the current character and \<open>skip\<close> the number of
  characters of the last match that are still ahead. A match is given by its start
  index and its group 2.
\<close>

fun finditer_fences :: "nat \<Rightarrow> nat \<Rightarrow> string \<Rightarrow> (nat \<times> string) list" where
  "finditer_fences skip pos [] = []"
| "finditer_fences skip pos (x # xs) =
     (if skip > 0 then finditer_fences (skip - 1) (pos + 1) xs
      else (case match_fence (x # xs) of
              None \<Rightarrow> finditer_fences 0 (pos + 1) xs
            | Some (code_content, n) \<Rightarrow>
                (pos, code_content) # finditer_fences (n - 1) (pos + 1) xs))"

text \<open>
  \<^verbatim>\<open>_extract_code_blocks\<close>. The file is \<open>None\<close> when reading it raises
  \<^verbatim>\<open>UnicodeDecodeError\<close> or \<^verbatim>\<open>FileNotFoundError\<close>; \<open>rel_path\<close> is its path relative
  to the repository root; \<open>md5\<close> stands for \<^verbatim>\<open>hashlib.md5(...).hexdigest()\<close>.
\<close>

definition extract_code_blocks ::
    "(string \<Rightarrow> string) \<Rightarrow> string \<Rightarrow> string option \<Rightarrow> CodeBlock list" where
  "extract_code_blocks md5 rel_path file =
     (case file of
        None \<Rightarrow> []
      | Some text \<Rightarrow>
          concat (map (\<lambda>(start_pos, code_content).
              if length (split_on newline code_content) < 3 then []
              else (let start_line = int (count_list (take start_pos text) newline) + 1;
                        end_line = start_line + int (count_list code_content newline)
                    in [\<lparr>file_path = rel_path, content = code_content,
                         start_line = start_line, end_line = end_line,
                         hash_value = md5 code_content\<rparr>]))
            (finditer_fences 0 0 text)))"

subsection \<open>Clustering\<close>

text \<open>
  \<^verbatim>\<open>_cluster_similar_blocks\<close>. The inner loop runs over the later blocks with their
  indices and carries the cluster and the set of used indices; the outer loop runs over
  all blocks with their indices.
\<close>

fun cluster_inner ::
    "CodeBlock \<Rightarrow> rat \<Rightarrow> (nat \<times> CodeBlock) list \<Rightarrow> CodeBlock list \<times> nat set
       \<Rightarrow> CodeBlock list \<times> nat set" where
  "cluster_inner block1 threshold [] (cluster, used_indices) = (cluster, used_indices)"
| "cluster_inner block1 threshold ((j, block2) # rest) (cluster, used_indices) =
     (if j \<in> used_indices then cluster_inner block1 threshold rest (cluster, used_indices)
      else if similarity_to block1 block2 \<ge> threshold
      then cluster_inner block1 threshold rest (cluster @ [block2], insert j used_indices)
      else cluster_inner block1 threshold rest (cluster, used_indices))"

fun cluster_outer ::
    "rat \<Rightarrow> (nat \<times> CodeBlock) list \<Rightarrow> nat set \<Rightarrow> CodeBlock list list" where
  "cluster_outer threshold [] used_indices = []"
| "cluster_outer threshold ((i, block1) # rest) used_indices =
     (if i \<in> used_indices then cluster_outer threshold rest used_indices
      else (case cluster_inner block1 threshold rest ([block1], insert i used_indices) of
              (cluster, used_indices') \<Rightarrow>
                (if length cluster \<ge> 2 then [cluster] else [])
                @ cluster_outer threshold rest used_indices'))"

definition cluster_similar_blocks :: "CodeBlock list \<Rightarrow> rat \<Rightarrow> CodeBlock list list" where
  "cluster_similar_blocks blocks threshold =
     cluster_outer threshold (enumerate 0 blocks) {}"

subsection \<open>The redundancy report\<close>

text \<open>
  The dicts of \<^verbatim>\<open>_generate_redundancy_report\<close> as records. The string
  \<^verbatim>\<open>f"{start_line}-{end_line}"\<close> is kept as the pair of its two numbers, and the two
  sentences of \<^verbatim>\<open>_generate_consolidation_recommendation\<close> as the two constructors of
  \<open>recommendation\<close>, with the file name or the number of files they mention.
\<close>

record location =
  loc_file :: string
  loc_lines :: "int \<times> int"
  loc_size :: int

datatype recommendation = ExtractFunction string | SharedModule nat

record cluster_info =
  cluster_id :: int
  block_count :: int
  locations :: "location list"
  potential_savings_lines :: int
  recommendation :: recommendation

record redundancy_report =
  total_clusters :: int
  total_duplicate_blocks :: int
  clusters :: "cluster_info list"

text \<open>\<^verbatim>\<open>len(block.content.split('\n'))\<close>, the \<^verbatim>\<open>size\<close> of a location.\<close>

definition block_size :: "CodeBlock \<Rightarrow> int" where
  "block_size block = int (length (split_on newline (content block)))"

text \<open>
  The two lines under \<^verbatim>\<open># Calculate potential savings\<close>:
  \<^verbatim>\<open>block_sizes = [len(cluster[0].content.split('\n')) for _ in cluster]\<close> and
  \<^verbatim>\<open>potential_savings = sum(block_sizes) - block_sizes[0] if block_sizes else 0\<close>.
  For an empty cluster the comprehension never reads \<^verbatim>\<open>cluster[0]\<close>.
\<close>

definition potential_savings :: "CodeBlock list \<Rightarrow> int" where
  "potential_savings cluster =
     (let block_sizes = (case cluster of
                           [] \<Rightarrow> []
                         | first # _ \<Rightarrow> map (\<lambda>_. block_size first) cluster)
      in if block_sizes \<noteq> [] then sum_list block_sizes - hd block_sizes else 0)"

definition generate_consolidation_recommendation :: "CodeBlock list \<Rightarrow> recommendation" where
  "generate_consolidation_recommendation cluster =
     (let fs = remdups (map file_path cluster)
      in if length fs = 1 then ExtractFunction (hd fs) else SharedModule (length fs))"

definition make_cluster_info :: "nat \<times> CodeBlock list \<Rightarrow> cluster_info" where
  "make_cluster_info = (\<lambda>(i, cluster).
     \<lparr>cluster_id = int i,
      block_count = int (length cluster),
      locations = map (\<lambda>block. \<lparr>loc_file = file_path block,
                                 loc_lines = (start_line block, end_line block),
                                 loc_size = block_size block\<rparr>) cluster,
      potential_savings_lines = potential_savings cluster,
      recommendation = generate_consolidation_recommendation cluster\<rparr>)"

definition generate_redundancy_report :: "CodeBlock list list \<Rightarrow> redundancy_report" where
  "generate_redundancy_report cs =
     \<lparr>total_clusters = int (length cs),
      total_duplicate_blocks = sum_list (map (\<lambda>cluster. int (length cluster)) cs),
      clusters = map make_cluster_info (enumerate 1 cs)\<rparr>"

text \<open>
  \<^verbatim>\<open>scan_redundancies\<close> over the markdown files found under the repository root, each
  given by its relative path and its text (if it can be read).
\<close>

definition scan_redundancies ::
    "(string \<Rightarrow> string) \<Rightarrow> (string \<times> string option) list \<Rightarrow> rat \<Rightarrow> redundancy_report" where
  "scan_redundancies md5 md_files similarity_threshold =
     (let all_blocks = concat (map (\<lambda>(rel_path, file). extract_code_blocks md5 rel_path file)
                                   md_files);
          cs = cluster_similar_blocks all_blocks similarity_threshold
      in generate_redundancy_report cs)"

subsection \<open>Notions used to state the properties\<close>

text \<open>Appending a list of paths to a node's \<^verbatim>\<open>dependents\<close>.\<close>

definition upd_dependents :: "string list \<Rightarrow> DependencyNode \<Rightarrow> DependencyNode" where
  "upd_dependents ps node = node\<lparr>dependents := dependents node @ ps\<rparr>"

text \<open>
  The paths that declare \<open>b\<close> as a dependency, in the order of the graph, each as
  often as its \<^verbatim>\<open>dependencies\<close> list names \<open>b\<close>.
\<close>

definition incoming :: "graph \<Rightarrow> string \<Rightarrow> string list" where
  "incoming g b = concat (map (\<lambda>(p, node). replicate (count_list (dependencies node) b) p) g)"

text \<open>The keys of a graph with the declared \<^verbatim>\<open>dependencies\<close> of each node.\<close>

definition declared :: "graph \<Rightarrow> (string \<times> string list) list" where
  "declared g = map (\<lambda>(p, node). (p, dependencies node)) g"

text \<open>
  The dependents relation of a graph, and the nodes reachable from a start node along
  it (the start node included).
\<close>

definition dependents_rel :: "graph \<Rightarrow> (string \<times> string) set" where
  "dependents_rel g = {(u, v). \<exists>node. map_of g u = Some node \<and> v \<in> set (dependents node)}"

definition reachable_dependents :: "graph \<Rightarrow> string \<Rightarrow> string set" where
  "reachable_dependents g start = (dependents_rel g)\<^sup>* `` {start}"

subsection \<open>Example manifests\<close>

text \<open>
  Two components: \<open>a\<close> names \<open>b\<close> twice, itself once and the undeclared \<open>x\<close>;
  \<open>b\<close> names \<open>a\<close>.
\<close>

definition ex_items :: "manifest_item list" where
  "ex_items =
     [\<lparr>item_path = ''a'', item_importance = Some ''critical'',
       item_connects_to = Some [''b'', ''b'', ''a'', ''x''], item_dependencies = Some [''BigQuery'']\<rparr>,
      \<lparr>item_path = ''b'', item_importance = None,
       item_connects_to = Some [''a''], item_dependencies = None\<rparr>]"

text \<open>The path \<open>a\<close> is declared twice, with different attributes.\<close>

definition dup_items :: "manifest_item list" where
  "dup_items =
     [\<lparr>item_path = ''a'', item_importance = Some ''critical'',
       item_connects_to = Some [''b''], item_dependencies = Some [''BigQuery'']\<rparr>,
      \<lparr>item_path = ''b'', item_importance = None,
       item_connects_to = None, item_dependencies = None\<rparr>,
      \<lparr>item_path = ''a'', item_importance = Some ''low'',
       item_connects_to = None, item_dependencies = None\<rparr>]"

text \<open>The two-node cycle: \<open>X\<close> depends on \<open>Y\<close> and \<open>Y\<close> on \<open>X\<close>.\<close>

definition cycle_items :: "manifest_item list" where
  "cycle_items =
     [\<lparr>item_path = ''X'', item_importance = None,
       item_connects_to = Some [''Y''], item_dependencies = None\<rparr>,
      \<lparr>item_path = ''Y'', item_importance = None,
       item_connects_to = Some [''X''], item_dependencies = None\<rparr>]"

text \<open>A chain: \<open>A\<close> depends on \<open>B\<close>, \<open>B\<close> on \<open>C\<close>, \<open>C\<close> on \<open>D\<close>, all of medium importance.\<close>

definition chain_items :: "manifest_item list" where
  "chain_items =
     [\<lparr>item_path = ''A'', item_importance = Some ''medium'',
       item_connects_to = Some [''B''], item_dependencies = None\<rparr>,
      \<lparr>item_path = ''B'', item_importance = Some ''medium'',
       item_connects_to = Some [''C''], item_dependencies = None\<rparr>,
      \<lparr>item_path = ''C'', item_importance = Some ''medium'',
       item_connects_to = Some [''D''], item_dependencies = None\<rparr>,
      \<lparr>item_path = ''D'', item_importance = Some ''medium'',
       item_connects_to = Some [], item_dependencies = None\<rparr>]"

subsection \<open>Example documents\<close>

text \<open>A document with one fenced block of two lines.\<close>

definition two_line_doc :: string where
  "two_line_doc = ''```py\<newline>x = 1\<newline>y = 2\<newline>```\<newline>''"

text \<open>
  Two documents with the same two lines of code in a fenced block; the block of the
  second has a blank line at its end.
\<close>

definition doc_one :: string where
  "doc_one = ''# Setup\<newline>```py\<newline>x = 1\<newline>y = 2\<newline>```\<newline>''"

definition doc_two :: string where
  "doc_two = ''```py\<newline>x = 1\<newline>y = 2\<newline>\<newline>```\<newline>''"

section \<open>Properties\<close>

subsection \<open>Severity\<close>

lemma severity_rank_values:
  "severity_rank ''LOW'' = 0" "severity_rank ''MODERATE'' = 1"
  "severity_rank ''SEVERE'' = 2" "severity_rank ''CATASTROPHIC'' = 3"
  by (simp_all add: severity_rank_def)

text \<open>
  C8: with the importance held fixed, a larger total impact never gets a lower
  severity rank, where LOW < MODERATE < SEVERE < CATASTROPHIC.
\<close>

theorem impact_severity_monotone:
  "m \<le> n \<Longrightarrow>
   severity_rank (impact_severity m imp) \<le> severity_rank (impact_severity n imp)"
  by (simp add: impact_severity_def severity_rank_values)

theorem impact_severity_monotone_witness:
  "(4::int) \<le> 5 \<and>
   severity_rank (impact_severity 4 ''critical'') = 2 \<and>
   severity_rank (impact_severity 5 ''critical'') = 3 \<and>
   severity_rank (impact_severity 4 ''critical'') \<le> severity_rank (impact_severity 5 ''critical'')"
  using impact_severity_monotone [of 4 5 "''critical''"]
  by (simp add: impact_severity_def severity_rank_values)

subsection \<open>Complexity score\<close>

lemma line_score_bounds: "0 \<le> l \<Longrightarrow> 0 \<le> line_score l \<and> line_score l \<le> 50"
  by (simp add: line_score_def)

lemma function_score_bounds: "0 \<le> f \<Longrightarrow> 0 \<le> function_score f \<and> function_score f \<le> 20"
  by (simp add: function_score_def)

lemma class_score_bounds: "0 \<le> c \<Longrightarrow> 0 \<le> class_score c \<and> class_score c \<le> 20"
  by (simp add: class_score_def)

lemma import_score_bounds: "0 \<le> i \<Longrightarrow> 0 \<le> import_score i \<and> import_score i \<le> 10"
  by (simp add: import_score_def)

lemma line_score_cap: "line_score l = 50 \<longleftrightarrow> 1000 \<le> l"
  by (auto simp: line_score_def min_def)

lemma function_score_cap: "function_score f = 20 \<longleftrightarrow> 30 \<le> f"
  by (auto simp: function_score_def min_def)

lemma class_score_cap: "class_score c = 20 \<longleftrightarrow> 50 \<le> c"
  by (auto simp: class_score_def min_def)

lemma import_score_cap: "import_score i = 10 \<longleftrightarrow> 20 \<le> i"
  by (auto simp: import_score_def min_def)

text \<open>
  C9: for non-negative counts the score is the sum of the four contributions, each
  capped on its own (at 50, 20, 20 and 10, the cap being reached from 1000 lines, 30
  blocks, 50 headers and 20 statements on), and lies between 0 and 100.
\<close>

theorem complexity_score_sum_bounded:
  assumes "0 \<le> l" "0 \<le> f" "0 \<le> c" "0 \<le> i"
  shows "calculate_complexity_score l f c i
           = min (of_int l / 1000 * 50) 50 + min (of_int f / 30 * 20) 20
             + min (of_int c / 50 * 20) 20 + min (of_int i / 20 * 10) 10
         \<and> 0 \<le> calculate_complexity_score l f c i
         \<and> calculate_complexity_score l f c i \<le> 100
         \<and> (line_score l = 50 \<longleftrightarrow> 1000 \<le> l)
         \<and> (function_score f = 20 \<longleftrightarrow> 30 \<le> f)
         \<and> (class_score c = 20 \<longleftrightarrow> 50 \<le> c)
         \<and> (import_score i = 10 \<longleftrightarrow> 20 \<le> i)"
proof -
  have b: "line_score l + function_score f + class_score c + import_score i \<le> 100"
    using line_score_bounds [OF assms(1)] function_score_bounds [OF assms(2)]
      class_score_bounds [OF assms(3)] import_score_bounds [OF assms(4)] by linarith
  have n: "0 \<le> line_score l + function_score f + class_score c + import_score i"
    using line_score_bounds [OF assms(1)] function_score_bounds [OF assms(2)]
      class_score_bounds [OF assms(3)] import_score_bounds [OF assms(4)] by linarith
  have e: "calculate_complexity_score l f c i
             = line_score l + function_score f + class_score c + import_score i"
    using b by (simp add: calculate_complexity_score_def Let_def)
  show ?thesis
    using b n e line_score_cap function_score_cap class_score_cap import_score_cap
    by (simp add: line_score_def function_score_def class_score_def import_score_def)
qed

theorem complexity_score_sum_bounded_witness:
  "(0::int) \<le> 1200 \<and> (0::int) \<le> 15 \<and> (0::int) \<le> 0 \<and> (0::int) \<le> 40
   \<and> calculate_complexity_score 1200 15 0 40 = 50 + 10 + 0 + 10
   \<and> 0 \<le> calculate_complexity_score 1200 15 0 40
   \<and> calculate_complexity_score 1200 15 0 40 \<le> 100"
  using complexity_score_sum_bounded [of 1200 15 0 40] by simp

subsection \<open>Graph construction\<close>


lemma upd_dependents_Nil: "upd_dependents [] node = node"
  by (simp add: upd_dependents_def)

lemma upd_dependents_append:
  "upd_dependents qs (upd_dependents ps node) = upd_dependents (ps @ qs) node"
  by (simp add: upd_dependents_def)

lemma map_of_add_dependent:
  "map_of (add_dependent p dep g) b
     = map_option (upd_dependents (if b = dep then [p] else [])) (map_of g b)"
  by (cases "map_of g b")
     (auto simp: add_dependent_def map_of_map_entry upd_dependents_def)

lemma map_of_fold_add_dependent:
  "map_of (fold (add_dependent p) ds g) b
     = map_option (upd_dependents (replicate (count_list ds b) p)) (map_of g b)"
proof (induction ds arbitrary: g)
  case Nil
  show ?case by (cases "map_of g b") (simp_all add: upd_dependents_Nil)
next
  case (Cons d ds)
  show ?case
    by (cases "map_of g b")
       (simp_all add: Cons.IH map_of_add_dependent upd_dependents_append
          upd_dependents_Nil replicate_app_Cons_same)
qed

lemma map_of_fold_outer:
  "map_of (fold (\<lambda>(p, node) g. fold (add_dependent p) (dependencies node) g) xs g) b
     = map_option (upd_dependents (incoming xs b)) (map_of g b)"
proof (induction xs arbitrary: g)
  case Nil
  show ?case by (cases "map_of g b") (simp_all add: upd_dependents_Nil incoming_def)
next
  case (Cons x xs)
  obtain p node where x: "x = (p, node)" by (cases x)
  show ?case
    by (cases "map_of g b")
       (simp_all add: x Cons.IH map_of_fold_add_dependent upd_dependents_append incoming_def)
qed

lemma map_of_reverse_dependencies:
  "map_of (reverse_dependencies g) b = map_option (upd_dependents (incoming g b)) (map_of g b)"
  by (simp add: reverse_dependencies_def map_of_fold_outer)


subsection \<open>Keys and declared dependencies\<close>

lemma declared_map_entry:
  "(\<And>n. dependencies (f n) = dependencies n) \<Longrightarrow> declared (AList.map_entry k f g) = declared g"
  by (induction g) (auto simp: declared_def)

lemma declared_add_dependent: "declared (add_dependent p dep g) = declared g"
  by (simp add: add_dependent_def declared_map_entry)

lemma declared_fold_add_dependent: "declared (fold (add_dependent p) ds g) = declared g"
  by (induction ds arbitrary: g) (simp_all add: declared_add_dependent)

lemma declared_fold_outer:
  "declared (fold (\<lambda>(p, node) g. fold (add_dependent p) (dependencies node) g) xs g) = declared g"
  by (induction xs arbitrary: g) (auto simp: declared_fold_add_dependent)

lemma declared_reverse_dependencies: "declared (reverse_dependencies g) = declared g"
  by (simp add: reverse_dependencies_def declared_fold_outer)

lemma map_fst_declared: "map fst (declared g) = map fst g"
  by (simp add: declared_def case_prod_unfold)

lemma incoming_declared:
  "incoming g b = concat (map (\<lambda>(p, ds). replicate (count_list ds b) p) (declared g))"
  by (simp add: incoming_def declared_def case_prod_unfold comp_def)

lemma incoming_reverse_dependencies: "incoming (reverse_dependencies g) b = incoming g b"
  by (simp add: incoming_declared declared_reverse_dependencies)

lemma map_fst_reverse_dependencies: "map fst (reverse_dependencies g) = map fst g"
  using declared_reverse_dependencies [of g] map_fst_declared by metis

subsection \<open>The first loop\<close>

lemma insert_nodes_Cons:
  "insert_nodes (item # items) g = insert_nodes items (AList.update (item_path item) (make_node item) g)"
  by (simp add: insert_nodes_def)

lemma insert_nodes_append:
  "insert_nodes (xs @ ys) g = insert_nodes ys (insert_nodes xs g)"
  by (simp add: insert_nodes_def)

lemma distinct_insert_nodes: "distinct (map fst g) \<Longrightarrow> distinct (map fst (insert_nodes items g))"
  by (induction items arbitrary: g) (simp_all add: insert_nodes_def distinct_update)

lemma keys_insert_nodes: "fst ` set (insert_nodes items g) = fst ` set g \<union> item_path ` set items"
  by (induction items arbitrary: g) (auto simp: insert_nodes_def dom_update)

lemma map_of_insert_nodes_other:
  "k \<notin> item_path ` set items \<Longrightarrow> map_of (insert_nodes items g) k = map_of g k"
  by (induction items arbitrary: g) (auto simp: insert_nodes_def update_conv')

lemma set_update_cases:
  "x \<in> set (AList.update k v al) \<Longrightarrow> x = (k, v) \<or> x \<in> set al"
  by (induction al) (auto split: if_splits)

lemma fresh_update:
  "\<forall>x \<in> set g. dependents (snd x) = [] \<Longrightarrow>
   \<forall>x \<in> set (AList.update (item_path item) (make_node item) g). dependents (snd x) = []"
  using set_update_cases [of _ "item_path item" "make_node item" g]
  by (fastforce simp: make_node_def)

lemma fresh_insert_nodes:
  "\<forall>x \<in> set g. dependents (snd x) = [] \<Longrightarrow>
   \<forall>x \<in> set (insert_nodes items g). dependents (snd x) = []"
proof (induction items arbitrary: g)
  case Nil
  then show ?case by (simp add: insert_nodes_def)
next
  case (Cons item items)
  show ?case
    unfolding insert_nodes_Cons
    by (rule Cons.IH) (rule fresh_update [OF Cons.prems])
qed

lemma fresh_insert_nodes_Nil:
  "map_of (insert_nodes items []) b = Some n \<Longrightarrow> dependents n = []"
  using fresh_insert_nodes [of "[]" items] map_of_SomeD [of "insert_nodes items []" b n]
  by fastforce

subsection \<open>The built graph\<close>

lemma distinct_build: "distinct (map fst (build_dependency_graph items))"
  by (simp add: build_dependency_graph_def map_fst_reverse_dependencies distinct_insert_nodes)

lemma keys_build: "fst ` set (build_dependency_graph items) = item_path ` set items"
proof -
  have "fst ` set (build_dependency_graph items) = set (map fst (build_dependency_graph items))"
    by simp
  also have "\<dots> = set (map fst (insert_nodes items []))"
    by (simp only: build_dependency_graph_def map_fst_reverse_dependencies)
  also have "\<dots> = item_path ` set items"
    using keys_insert_nodes [of items "[]"] by simp
  finally show ?thesis .
qed

lemma dependents_build:
  assumes "map_of (build_dependency_graph items) b = Some nb"
  shows "dependents nb = incoming (build_dependency_graph items) b"
proof -
  let ?g0 = "insert_nodes items []"
  from assms have "map_option (upd_dependents (incoming ?g0 b)) (map_of ?g0 b) = Some nb"
    by (simp add: build_dependency_graph_def map_of_reverse_dependencies)
  then obtain n0 where n0: "map_of ?g0 b = Some n0" and nb: "nb = upd_dependents (incoming ?g0 b) n0"
    by (cases "map_of ?g0 b") auto
  have "dependents n0 = []" using n0 by (rule fresh_insert_nodes_Nil)
  then have "dependents nb = incoming ?g0 b" by (simp add: nb upd_dependents_def)
  then show ?thesis
    by (simp add: build_dependency_graph_def incoming_reverse_dependencies)
qed

lemma count_list_replicate: "count_list (replicate k p) a = (if a = p then k else 0)"
  by (induction k) auto

lemma count_incoming_absent:
  "a \<notin> fst ` set g \<Longrightarrow> count_list (incoming g b) a = 0"
  by (induction g) (auto simp: incoming_def)

lemma count_incoming:
  "distinct (map fst g) \<Longrightarrow> map_of g a = Some na \<Longrightarrow>
   count_list (incoming g b) a = count_list (dependencies na) b"
proof (induction g)
  case Nil
  then show ?case by simp
next
  case (Cons x g)
  obtain p n where x: "x = (p, n)" by (cases x)
  show ?case
  proof (cases "a = p")
    case True
    then have "na = n" using Cons.prems(2) by (simp add: x)
    moreover have "a \<notin> fst ` set g" using Cons.prems(1) True by (simp add: x)
    then have "count_list (incoming g b) a = 0" by (rule count_incoming_absent)
    ultimately show ?thesis using True
      by (simp add: x incoming_def [of "(p, n) # g"] incoming_def [of g, symmetric]
            count_list_replicate)
  next
    case False
    then have "count_list (incoming g b) a = count_list (dependencies na) b"
      using Cons by (simp add: x)
    then show ?thesis using False
      by (simp add: x incoming_def [of "(p, n) # g"] incoming_def [of g, symmetric]
            count_list_replicate)
  qed
qed

lemma set_incoming:
  "set (incoming g b) = {p. \<exists>n. (p, n) \<in> set g \<and> b \<in> set (dependencies n)}"
  by (auto simp: incoming_def count_list_0_iff)

lemma length_incoming:
  "length (incoming g b) = sum_list (map (\<lambda>(p, node). count_list (dependencies node) b) g)"
  by (induction g) (auto simp: incoming_def)


lemma ex_build:
  "build_dependency_graph ex_items =
     [(''a'', \<lparr>path = ''a'', importance = ''critical'', dependencies = [''b'', ''b'', ''a'', ''x''],
              dependents = [''a'', ''b''], external_deps = [''BigQuery'']\<rparr>),
      (''b'', \<lparr>path = ''b'', importance = ''medium'', dependencies = [''a''],
              dependents = [''a'', ''a''], external_deps = []\<rparr>)]"
  by (simp add: build_dependency_graph_def reverse_dependencies_def insert_nodes_def
        add_dependent_def make_node_def ex_items_def)

lemma dup_build:
  "build_dependency_graph dup_items =
     [(''a'', \<lparr>path = ''a'', importance = ''low'', dependencies = [],
              dependents = [], external_deps = []\<rparr>),
      (''b'', \<lparr>path = ''b'', importance = ''medium'', dependencies = [],
              dependents = [], external_deps = []\<rparr>)]"
  by (simp add: build_dependency_graph_def reverse_dependencies_def insert_nodes_def
        add_dependent_def make_node_def dup_items_def)

text \<open>
  C7: in the graph a build returns, the dependents of a node \<open>b\<close> are exactly the
  nodes of the graph whose declared dependencies name \<open>b\<close>. The nodes of the graph are
  the declared paths, so a dependency on an undeclared target has no node to be
  recorded in and gives no reverse edge; every dependent is itself a declared path.
\<close>

theorem dependents_inverse_of_dependencies:
  assumes "map_of (build_dependency_graph items) b = Some nb"
  shows "set (dependents nb)
           = {a. \<exists>na. map_of (build_dependency_graph items) a = Some na
                      \<and> b \<in> set (dependencies na)}
         \<and> set (dependents nb) \<subseteq> item_path ` set items
         \<and> fst ` set (build_dependency_graph items) = item_path ` set items"
proof -
  let ?g = "build_dependency_graph items"
  have d: "distinct (map fst ?g)" by (rule distinct_build)
  have "set (dependents nb) = {p. \<exists>n. (p, n) \<in> set ?g \<and> b \<in> set (dependencies n)}"
    by (simp add: dependents_build [OF assms] set_incoming)
  then have e: "set (dependents nb) = {a. \<exists>na. map_of ?g a = Some na \<and> b \<in> set (dependencies na)}"
    using d by simp
  have k: "fst ` set ?g = item_path ` set items" by (rule keys_build)
  have "set (dependents nb) \<subseteq> fst ` set ?g"
    unfolding e by (auto dest!: map_of_SomeD intro: rev_image_eqI)
  then show ?thesis using e k by simp
qed

theorem dependents_inverse_of_dependencies_witness:
  "map_of (build_dependency_graph ex_items) ''b''
     = Some \<lparr>path = ''b'', importance = ''medium'', dependencies = [''a''],
             dependents = [''a'', ''a''], external_deps = []\<rparr>
   \<and> {a. \<exists>na. map_of (build_dependency_graph ex_items) a = Some na
              \<and> ''b'' \<in> set (dependencies na)} = {''a''}
   \<and> map_of (build_dependency_graph ex_items) ''x'' = None
   \<and> fst ` set (build_dependency_graph ex_items) = item_path ` set ex_items"
proof -
  have h: "map_of (build_dependency_graph ex_items) ''b''
     = Some \<lparr>path = ''b'', importance = ''medium'', dependencies = [''a''],
             dependents = [''a'', ''a''], external_deps = []\<rparr>"
    by (simp add: ex_build)
  have x: "map_of (build_dependency_graph ex_items) ''x'' = None"
    by (simp add: ex_build)
  show ?thesis
    using h x dependents_inverse_of_dependencies [OF h] by simp
qed

text \<open>
  C10: the dependents list of \<open>b\<close> holds a path \<open>a\<close> as many times as the declared
  dependencies of \<open>a\<close> name \<open>b\<close> (also when \<open>a\<close> is \<open>b\<close> itself). The blast radius
  of \<open>b\<close> is therefore the number of listings of \<open>b\<close> over all nodes, and this number
  is what enters the criticality score.
\<close>

theorem dependents_carry_multiplicity:
  assumes "map_of (build_dependency_graph items) a = Some na"
    and "map_of (build_dependency_graph items) b = Some nb"
  shows "count_list (dependents nb) a = count_list (dependencies na) b
         \<and> blast_radius nb
             = int (sum_list (map (\<lambda>(p, node). count_list (dependencies node) b)
                                  (build_dependency_graph items)))
         \<and> criticality_score nb
             = min ((case map_of importance_scores (importance nb) of None \<Rightarrow> 50 | Some v \<Rightarrow> v)
                    + min (int (sum_list (map (\<lambda>(p, node). count_list (dependencies node) b)
                                            (build_dependency_graph items))) * 5) 50) 100"
proof -
  let ?g = "build_dependency_graph items"
  have d: "dependents nb = incoming ?g b" using assms(2) by (rule dependents_build)
  have c: "count_list (dependents nb) a = count_list (dependencies na) b"
    unfolding d using distinct_build assms(1) by (rule count_incoming)
  have r: "blast_radius nb
             = int (sum_list (map (\<lambda>(p, node). count_list (dependencies node) b) ?g))"
    by (simp add: blast_radius_def d length_incoming)
  show ?thesis using c r by (simp add: criticality_score_def Let_def)
qed


theorem dependents_carry_multiplicity_witness:
  "map_of (build_dependency_graph ex_items) ''a''
     = Some \<lparr>path = ''a'', importance = ''critical'', dependencies = [''b'', ''b'', ''a'', ''x''],
             dependents = [''a'', ''b''], external_deps = [''BigQuery'']\<rparr>
   \<and> map_of (build_dependency_graph ex_items) ''b''
     = Some \<lparr>path = ''b'', importance = ''medium'', dependencies = [''a''],
             dependents = [''a'', ''a''], external_deps = []\<rparr>
   \<and> count_list [''a'', ''a''] ''a'' = count_list [''b'', ''b'', ''a'', ''x''] ''b''
   \<and> count_list [''a'', ''b''] ''a'' = count_list [''b'', ''b'', ''a'', ''x''] ''a''
   \<and> blast_radius \<lparr>path = ''b'', importance = ''medium'', dependencies = [''a''],
                    dependents = [''a'', ''a''], external_deps = []\<rparr> = 2
   \<and> criticality_score \<lparr>path = ''b'', importance = ''medium'', dependencies = [''a''],
                    dependents = [''a'', ''a''], external_deps = []\<rparr> = 60"
proof -
  have a: "map_of (build_dependency_graph ex_items) ''a''
     = Some \<lparr>path = ''a'', importance = ''critical'', dependencies = [''b'', ''b'', ''a'', ''x''],
             dependents = [''a'', ''b''], external_deps = [''BigQuery'']\<rparr>"
    by (simp add: ex_build)
  have b: "map_of (build_dependency_graph ex_items) ''b''
     = Some \<lparr>path = ''b'', importance = ''medium'', dependencies = [''a''],
             dependents = [''a'', ''a''], external_deps = []\<rparr>"
    by (simp add: ex_build)
  show ?thesis
    using a b dependents_carry_multiplicity [OF a b] dependents_carry_multiplicity [OF a a]
    by (simp add: ex_build importance_scores_def)
qed

subsection \<open>Breadth-first traversal of the dependents\<close>

lemma bfs_sound:
  "visited \<subseteq> R \<Longrightarrow> set queue \<subseteq> R \<Longrightarrow>
   (\<forall>u v. u \<in> R \<longrightarrow> (u, v) \<in> dependents_rel g \<longrightarrow> v \<in> R) \<Longrightarrow>
   bfs g visited queue \<subseteq> R"
proof (induction g visited queue rule: bfs.induct)
  case (1 g visited)
  then show ?case by simp
next
  case (2 g visited current queue)
  show ?case
  proof (cases "current \<in> visited")
    case True
    then show ?thesis using 2 by simp
  next
    case False
    note nv = this
    show ?thesis
    proof (cases "map_of g current")
      case None
      then show ?thesis using nv 2 by simp
    next
      case (Some node)
      have "set (dependents node) \<subseteq> R"
        using Some "2.prems" by (auto simp: dependents_rel_def)
      then show ?thesis using nv Some 2 by auto
    qed
  qed
qed

lemma bfs_extends: "visited \<union> set queue \<subseteq> bfs g visited queue"
proof (induction g visited queue rule: bfs.induct)
  case (1 g visited)
  then show ?case by simp
next
  case (2 g visited current queue)
  show ?case
  proof (cases "current \<in> visited")
    case True
    then show ?thesis using 2 by auto
  next
    case False
    note nv = this
    show ?thesis
    proof (cases "map_of g current")
      case None
      then show ?thesis using nv "2.IH"(2) by auto
    next
      case (Some node)
      then show ?thesis using nv "2.IH"(3) [OF nv Some] by auto
    qed
  qed
qed

lemma bfs_closed:
  "(\<forall>u v. u \<in> visited \<longrightarrow> (u, v) \<in> dependents_rel g \<longrightarrow> v \<in> visited \<union> set queue) \<Longrightarrow>
   (u, v) \<in> dependents_rel g \<Longrightarrow> u \<in> bfs g visited queue \<Longrightarrow> v \<in> bfs g visited queue"
proof (induction g visited queue rule: bfs.induct)
  case (1 g visited)
  then show ?case by auto
next
  case (2 g visited current queue)
  show ?case
  proof (cases "current \<in> visited")
    case True
    have "\<forall>u v. u \<in> visited \<longrightarrow> (u, v) \<in> dependents_rel g \<longrightarrow> v \<in> visited \<union> set queue"
      using "2.prems"(1) True by auto
    then show ?thesis using "2.IH"(1) [OF True _ "2.prems"(2)] "2.prems"(3) True by simp
  next
    case False
    note nv = this
    show ?thesis
    proof (cases "map_of g current")
      case None
      have "\<forall>u v. u \<in> insert current visited \<longrightarrow> (u, v) \<in> dependents_rel g
              \<longrightarrow> v \<in> insert current visited \<union> set queue"
        using "2.prems"(1) None by (auto simp: dependents_rel_def)
      then show ?thesis
        using "2.IH"(2) [OF nv None _ "2.prems"(2)] "2.prems"(3) nv None by simp
    next
      case (Some node)
      let ?q = "queue @ filter (\<lambda>dependent. dependent \<notin> insert current visited) (dependents node)"
      have "\<forall>u v. u \<in> insert current visited \<longrightarrow> (u, v) \<in> dependents_rel g
              \<longrightarrow> v \<in> insert current visited \<union> set ?q"
        using "2.prems"(1) Some by (auto simp: dependents_rel_def)
      then show ?thesis
        using "2.IH"(3) [OF nv Some _ "2.prems"(2)] "2.prems"(3) nv Some by simp
    qed
  qed
qed

lemma bfs_reachable: "bfs g {} [start] = reachable_dependents g start"
proof
  show "bfs g {} [start] \<subseteq> reachable_dependents g start"
    by (rule bfs_sound) (auto simp: reachable_dependents_def intro: rtrancl_into_rtrancl)
next
  have s: "start \<in> bfs g {} [start]" using bfs_extends [of "{}" "[start]" g] by simp
  have "v \<in> bfs g {} [start]" if "(start, v) \<in> (dependents_rel g)\<^sup>*" for v
    using that
  proof (induction rule: rtrancl_induct)
    case base
    show ?case by (rule s)
  next
    case (step y z)
    show ?case by (rule bfs_closed [OF _ step.hyps(2) step.IH]) simp
  qed
  then show "reachable_dependents g start \<subseteq> bfs g {} [start]"
    by (auto simp: reachable_dependents_def)
qed

lemma finite_reachable: "finite (reachable_dependents g start)"
proof -
  have "bfs g {} [start] \<subseteq> insert start (graph_names g)"
    by (rule bfs_sound) (auto simp: dependents_rel_def graph_names_def dest!: map_of_SomeD)
  moreover have "finite (insert start (graph_names g))" by (auto simp: graph_names_def)
  ultimately show ?thesis unfolding bfs_reachable by (rule finite_subset)
qed

text \<open>
  C6: the traversal is a total function (it terminates on every graph, cyclic or not),
  and the total impact it reports is the number of nodes reachable from the start node
  along the dependents relation, the start node not counted. On the two-node cycle the
  total impact of \<open>X\<close> is 1.
\<close>

theorem total_impact_counts_reachable:
  "total_impact (calculate_failure_impact node g)
     = int (card (reachable_dependents g (path node) - {path node}))"
proof -
  let ?R = "reachable_dependents g (path node)"
  have m: "path node \<in> ?R" by (simp add: reachable_dependents_def)
  have f: "finite ?R" by (rule finite_reachable)
  have "0 < card ?R" using m f by (auto simp: card_gt_0_iff)
  then have "int (card ?R) - 1 = int (card (?R - {path node}))"
    using m f by (simp add: card_Diff_singleton of_nat_diff)
  then show ?thesis
    by (simp add: calculate_failure_impact_def Let_def bfs_reachable del: bfs.simps)
qed



lemma cycle_build:
  "build_dependency_graph cycle_items =
     [(''X'', \<lparr>path = ''X'', importance = ''medium'', dependencies = [''Y''],
              dependents = [''Y''], external_deps = []\<rparr>),
      (''Y'', \<lparr>path = ''Y'', importance = ''medium'', dependencies = [''X''],
              dependents = [''X''], external_deps = []\<rparr>)]"
  by (simp add: build_dependency_graph_def reverse_dependencies_def insert_nodes_def
        add_dependent_def make_node_def cycle_items_def)

theorem total_impact_counts_reachable_witness:
  "total_impact (calculate_failure_impact
      \<lparr>path = ''X'', importance = ''medium'', dependencies = [''Y''],
       dependents = [''Y''], external_deps = []\<rparr> (build_dependency_graph cycle_items)) = 1
   \<and> card (reachable_dependents (build_dependency_graph cycle_items) ''X'' - {''X''}) = 1"
proof -
  have "bfs (build_dependency_graph cycle_items) {} [''X''] = {''X'', ''Y''}"
    by (simp add: cycle_build insert_commute)
  then have "total_impact (calculate_failure_impact
      \<lparr>path = ''X'', importance = ''medium'', dependencies = [''Y''],
       dependents = [''Y''], external_deps = []\<rparr> (build_dependency_graph cycle_items)) = 1"
    by (simp add: calculate_failure_impact_def del: bfs.simps)
  then show ?thesis
    using total_impact_counts_reachable
      [of "\<lparr>path = ''X'', importance = ''medium'', dependencies = [''Y''],
             dependents = [''Y''], external_deps = []\<rparr>" "build_dependency_graph cycle_items"]
    by simp
qed

subsection \<open>Repeated paths\<close>

lemma map_of_insert_nodes_last:
  assumes "item_path item \<notin> item_path ` set post"
  shows "map_of (insert_nodes (pre @ item # post) []) (item_path item) = Some (make_node item)"
  using assms
  by (simp add: insert_nodes_append insert_nodes_Cons map_of_insert_nodes_other update_conv')

text \<open>
  C5 (as amended): when a path is declared more than once, the node of the built
  graph carries the importance, the dependencies and the external-dependency labels of
  its last declaration.
\<close>

theorem build_keeps_last_declaration:
  assumes "items = pre @ item # post" and "item_path item \<notin> item_path ` set post"
  shows "\<exists>node. map_of (build_dependency_graph items) (item_path item) = Some node
           \<and> path node = item_path item
           \<and> importance node = importance (make_node item)
           \<and> dependencies node = dependencies (make_node item)
           \<and> external_deps node = external_deps (make_node item)"
  using assms
  by (simp add: build_dependency_graph_def map_of_reverse_dependencies
        map_of_insert_nodes_last upd_dependents_def make_node_def)

theorem build_keeps_last_declaration_witness:
  "dup_items = [dup_items ! 0, dup_items ! 1] @ dup_items ! 2 # []
   \<and> item_path (dup_items ! 2) = ''a''
   \<and> item_path (dup_items ! 2) \<notin> item_path ` set []
   \<and> (\<exists>node. map_of (build_dependency_graph dup_items) ''a'' = Some node
           \<and> path node = ''a''
           \<and> importance node = ''low''
           \<and> dependencies node = []
           \<and> external_deps node = [])"
proof -
  have d: "dup_items = [dup_items ! 0, dup_items ! 1] @ dup_items ! 2 # []"
    by (simp add: dup_items_def)
  have e: "item_path (dup_items ! 2) \<notin> item_path ` set []" by simp
  show ?thesis
    using d build_keeps_last_declaration [OF d e]
    by (simp add: dup_items_def make_node_def)
qed

text \<open>
  The claim C5 as stated fails: \<open>a\<close> is declared first as critical, with a dependency
  on \<open>b\<close> and the label BigQuery, and last as low with nothing else; the node of the
  built graph has the attributes of the last declaration, not of the first.
\<close>

theorem first_declaration_not_kept:
  "item_path (dup_items ! 0) = ''a'' \<and> item_path (dup_items ! 2) = ''a''
   \<and> importance (make_node (dup_items ! 0)) = ''critical''
   \<and> dependencies (make_node (dup_items ! 0)) = [''b'']
   \<and> external_deps (make_node (dup_items ! 0)) = [''BigQuery'']
   \<and> map_option importance (map_of (build_dependency_graph dup_items) ''a'') = Some ''low''
   \<and> map_option dependencies (map_of (build_dependency_graph dup_items) ''a'') = Some []
   \<and> map_option external_deps (map_of (build_dependency_graph dup_items) ''a'') = Some []"
  by (simp add: dup_build) (simp add: dup_items_def make_node_def)

subsection \<open>Critical paths\<close>

lemma trace_leaf:
  "map_of g p = Some node \<Longrightarrow> dependencies node = [] \<Longrightarrow> trace_dependency_chain p g {} = [p]"
  by simp

text \<open>
  C3: in every graph (a dict, so with distinct keys) the tracer is started only at
  nodes without declared dependencies, each such chain is the start node alone, no
  chain reaches length 3, and the list of critical paths is empty; so is the list of
  critical paths in the impact report of every manifest.
\<close>

theorem critical_paths_always_empty:
  assumes "distinct (map fst g)"
  shows "(\<forall>(p, node) \<in> set g. dependencies node = [] \<longrightarrow> trace_dependency_chain p g {} = [p])
         \<and> candidate_paths g = [] \<and> find_critical_paths g = []
         \<and> critical_paths (analyze_impact items) = []"
proof -
  have r: "critical_paths (analyze_impact items) = find_critical_paths (build_dependency_graph items)"
    by (simp add: analyze_impact_def Let_def)
  have e: "find_critical_paths (build_dependency_graph items) = []"
  proof -
    have "candidate_paths (build_dependency_graph items) = []"
      unfolding candidate_paths_def
      using distinct_build [of items]
      by (auto simp del: trace_dependency_chain.simps simp: trace_leaf)
    then show ?thesis by (simp add: find_critical_paths_def)
  qed
  have l: "trace_dependency_chain p g {} = [p]"
    if "(p, node) \<in> set g" "dependencies node = []" for p node
  proof -
    have "map_of g p = Some node" using assms that(1) by simp
    then show ?thesis using that(2) by (rule trace_leaf)
  qed
  have c: "candidate_paths g = []"
    unfolding candidate_paths_def using l by (auto simp del: trace_dependency_chain.simps)
  show ?thesis
    using l c r e by (auto simp: find_critical_paths_def simp del: trace_dependency_chain.simps)
qed


lemma chain_build:
  "build_dependency_graph chain_items =
     [(''A'', \<lparr>path = ''A'', importance = ''medium'', dependencies = [''B''],
              dependents = [], external_deps = []\<rparr>),
      (''B'', \<lparr>path = ''B'', importance = ''medium'', dependencies = [''C''],
              dependents = [''A''], external_deps = []\<rparr>),
      (''C'', \<lparr>path = ''C'', importance = ''medium'', dependencies = [''D''],
              dependents = [''B''], external_deps = []\<rparr>),
      (''D'', \<lparr>path = ''D'', importance = ''medium'', dependencies = [],
              dependents = [''C''], external_deps = []\<rparr>)]"
  by (simp add: build_dependency_graph_def reverse_dependencies_def insert_nodes_def
        add_dependent_def make_node_def chain_items_def)

text \<open>Started at \<open>A\<close> the tracer finds the whole chain; it is never started there.\<close>

lemma trace_chain_from_A:
  "trace_dependency_chain ''A'' (build_dependency_graph chain_items) {} = [''A'', ''B'', ''C'', ''D'']"
  by (simp add: chain_build)

theorem critical_paths_always_empty_witness:
  "distinct (map fst (build_dependency_graph chain_items))
   \<and> trace_dependency_chain ''D'' (build_dependency_graph chain_items) {} = [''D'']
   \<and> find_critical_paths (build_dependency_graph chain_items) = []
   \<and> critical_paths (analyze_impact chain_items) = []"
proof -
  have d: "distinct (map fst (build_dependency_graph chain_items))" by (rule distinct_build)
  have t: "trace_dependency_chain ''D'' (build_dependency_graph chain_items) {} = [''D'']"
    by (simp add: chain_build)
  show ?thesis using d t critical_paths_always_empty [OF d, of chain_items] by simp
qed

subsection \<open>Manifest loading\<close>

text \<open>
  C2 (as amended): when the manifest file is missing, initialization raises nothing:
  it prints the warning, the loaded manifest has an empty structure, the file index
  and the dependency graph are empty, the impact analysis has nothing to report, and
  the program starts.
\<close>

theorem missing_manifest_degrades:
  "engine_init manifest_path FileNotFound
     = Inr (\<lparr>engine_manifest = Some default_manifest, files = []\<rparr>,
            [ManifestNotFound manifest_path, FeaturesLimited])
   \<and> engine_graph \<lparr>engine_manifest = Some default_manifest, files = []\<rparr> = Inr []
   \<and> analyze_impact []
     = \<lparr>critical_paths = [], single_points_of_failure = [], components = []\<rparr>
   \<and> main_startup manifest_path FileNotFound
     = Started \<lparr>engine_manifest = Some default_manifest, files = []\<rparr>
         [ManifestNotFound manifest_path, FeaturesLimited]"
  by (simp add: engine_init_def build_file_index_def default_manifest_def engine_graph_def
        build_dependency_graph_def reverse_dependencies_def insert_nodes_def
        find_critical_paths_def candidate_paths_def main_startup_def analyze_impact_def)

theorem missing_manifest_degrades_witness:
  "engine_init ''.repometa/manifest.yaml'' FileNotFound
     = Inr (\<lparr>engine_manifest = Some \<lparr>manifest_structure = Some [], manifest_categories = Some []\<rparr>, files = []\<rparr>,
            [ManifestNotFound ''.repometa/manifest.yaml'', FeaturesLimited])"
  using missing_manifest_degrades [of "''.repometa/manifest.yaml''"]
  by (simp add: default_manifest_def)

text \<open>
  The claim C2 as stated fails for an unparseable manifest: the parser's error leaves
  the constructor, and \<^verbatim>\<open>main\<close> ends the process with exit status 1.
\<close>

theorem unparseable_manifest_is_fatal:
  "engine_init ''.repometa/manifest.yaml'' Unparseable = Inl YAMLError
   \<and> main_startup ''.repometa/manifest.yaml'' Unparseable
     = Exited 1 [FailedToInitialize YAMLError]"
  by (simp add: engine_init_def main_startup_def)

subsection \<open>Fragments and the redundancy report\<close>

lemma length_split_on: "length (split_on sep xs) = count_list xs sep + 1"
  by (induction xs) (auto split: list.splits)

text \<open>What the length test of the extractor does guarantee: three pieces or more.\<close>

lemma extracted_blocks_size:
  "block \<in> set (extract_code_blocks md5 rel_path f) \<Longrightarrow> 3 \<le> block_size block"
  by (auto simp: extract_code_blocks_def block_size_def Let_def split: option.splits if_splits)

lemma extracted_blocks_newlines:
  "block \<in> set (extract_code_blocks md5 rel_path f) \<Longrightarrow>
   2 \<le> count_list (content block) newline"
  using extracted_blocks_size [of block md5 rel_path f]
  by (simp add: block_size_def length_split_on)

text \<open>
  C4: the code at a fenced block whose content is the two lines \<open>x = 1\<close> and
  \<open>y = 2\<close>. The content ends with a newline, so it splits into three pieces, the
  length test does not reject it, and the block is extracted.
\<close>

theorem two_line_block_is_extracted:
  "extract_code_blocks md5 ''notes.md'' (Some two_line_doc)
     = [\<lparr>file_path = ''notes.md'', content = ''x = 1\<newline>y = 2\<newline>'',
         start_line = 1, end_line = 3, hash_value = md5 ''x = 1\<newline>y = 2\<newline>''\<rparr>]
   \<and> split_on newline ''x = 1\<newline>y = 2\<newline>'' = [''x = 1'', ''y = 2'', []]"
  by (simp add: extract_code_blocks_def two_line_doc_def match_fence_def is_word_char_def
        newline_def)

text \<open>
  The reported savings are the size of the first block, once for every other member.
\<close>

lemma potential_savings_formula:
  "potential_savings (first # rest) = int (length rest) * block_size first"
  by (simp add: potential_savings_def sum_list_triv algebra_simps)

text \<open>When all members have the size of the first, this is the sum of their sizes.\<close>

lemma potential_savings_uniform:
  assumes "\<forall>block \<in> set rest. block_size block = block_size first"
  shows "potential_savings (first # rest) = sum_list (map block_size rest)"
proof -
  have "sum_list (map block_size rest) = int (length rest) * block_size first"
    using assms by (induction rest) (simp_all add: algebra_simps)
  then show ?thesis by (simp add: potential_savings_formula)
qed

lemma doc_one_blocks:
  "extract_code_blocks md5 ''a.md'' (Some doc_one)
     = [\<lparr>file_path = ''a.md'', content = ''x = 1\<newline>y = 2\<newline>'',
         start_line = 2, end_line = 4, hash_value = md5 ''x = 1\<newline>y = 2\<newline>''\<rparr>]"
  by (simp add: extract_code_blocks_def doc_one_def match_fence_def is_word_char_def newline_def)

lemma doc_two_blocks:
  "extract_code_blocks md5 ''b.md'' (Some doc_two)
     = [\<lparr>file_path = ''b.md'', content = ''x = 1\<newline>y = 2\<newline>\<newline>'',
         start_line = 1, end_line = 4,
         hash_value = md5 ''x = 1\<newline>y = 2\<newline>\<newline>''\<rparr>]"
  by (simp add: extract_code_blocks_def doc_two_def match_fence_def is_word_char_def newline_def)

lemma similar_one_two:
  "similarity_to
     \<lparr>file_path = ''a.md'', content = ''x = 1\<newline>y = 2\<newline>'',
      start_line = 2, end_line = 4, hash_value = h1\<rparr>
     \<lparr>file_path = ''b.md'', content = ''x = 1\<newline>y = 2\<newline>\<newline>'',
      start_line = 1, end_line = 4, hash_value = h2\<rparr> = 100"
  by (simp add: similarity_to_def Let_def tokenize_def newline_def is_space_def
        is_word_char_def lower_char_def)

text \<open>
  C1: the code on two documents whose blocks have the same tokens and the sizes 3 and
  4. Whatever the digests are, the blocks form one cluster; the report gives the
  savings as 3, the size of the first block, while the one member that is not the
  representative has 4 lines.
\<close>

theorem savings_repeat_first_block_size:
  "clusters (scan_redundancies md5 [(''a.md'', Some doc_one), (''b.md'', Some doc_two)] 70)
     = [\<lparr>cluster_id = 1, block_count = 2,
         locations = [\<lparr>loc_file = ''a.md'', loc_lines = (2, 4), loc_size = 3\<rparr>,
                      \<lparr>loc_file = ''b.md'', loc_lines = (1, 4), loc_size = 4\<rparr>],
         potential_savings_lines = 3,
         recommendation = SharedModule 2\<rparr>]"
  by (simp add: scan_redundancies_def doc_one_blocks doc_two_blocks cluster_similar_blocks_def
        similar_one_two generate_redundancy_report_def make_cluster_info_def
        potential_savings_def block_size_def generate_consolidation_recommendation_def
        enumerate_eq_zip newline_def)

end
